theory Spec2Isabelle
  imports Main
begin

section \<open>JavaScript strings\<close>

text \<open>
  Strings are lists of characters. The handler of \<^verbatim>\<open>runDockerCompose.ts\<close> uses
  \<^verbatim>\<open>split\<close>, \<^verbatim>\<open>includes\<close>, \<^verbatim>\<open>trim\<close> and one regular expression on them; each
  is written out here as the recursive function it computes.
\<close>

definition is_digit :: "char \<Rightarrow> bool" where
  "is_digit c = (c \<in> set ''0123456789'')"

text \<open>White space as \<^verbatim>\<open>String.prototype.trim\<close> sees it, among the characters below 256.\<close>

definition is_space :: "char \<Rightarrow> bool" where
  "is_space c = (c \<in> {CHR 0x09, CHR 0x0A, CHR 0x0B, CHR 0x0C, CHR 0x0D, CHR 0x20, CHR 0xA0})"

definition js_trim :: "string \<Rightarrow> string" where
  "js_trim s = rev (dropWhile is_space (rev (dropWhile is_space s)))"

text \<open>\<^verbatim>\<open>s.startsWith(p)\<close>\<close>

fun starts_with :: "string \<Rightarrow> string \<Rightarrow> bool" where
  "starts_with s [] = True"
| "starts_with [] (p # ps) = False"
| "starts_with (c # cs) (p # ps) = (c = p \<and> starts_with cs ps)"

text \<open>\<^verbatim>\<open>s.includes(sub)\<close>: \<open>sub\<close> occurs in \<open>s\<close> at some position.\<close>

fun js_includes :: "string \<Rightarrow> string \<Rightarrow> bool" where
  "js_includes [] sub = (sub = [])"
| "js_includes (c # cs) sub = (starts_with (c # cs) sub \<or> js_includes cs sub)"

text \<open>
  \<^verbatim>\<open>s.split(sep)\<close> for a non-empty separator: scan from the left, cut at every occurrence
  of the separator and resume after it. \<open>acc\<close> holds the current piece, reversed.
\<close>

function split_from :: "string \<Rightarrow> string \<Rightarrow> string \<Rightarrow> string list" where
  "split_from sep acc [] = [rev acc]"
| "split_from sep acc (c # cs) =
     (if sep \<noteq> [] \<and> starts_with (c # cs) sep
      then rev acc # split_from sep [] (drop (length sep - 1) cs)
      else split_from sep (c # acc) cs)"
  by pat_completeness auto
termination
  by (relation "measure (\<lambda>(sep, acc, s). length s)") auto

definition js_split :: "string \<Rightarrow> string \<Rightarrow> string list" where
  "js_split sep s = (if sep = [] then map (\<lambda>c. [c]) s else split_from sep [] s)"

text \<open>Decimal rendering of a number, as \<^verbatim>\<open>String(n)\<close> gives it for an integer.\<close>

definition digit_char :: "nat \<Rightarrow> char" where
  "digit_char d = ''0123456789'' ! d"

fun show_nat :: "nat \<Rightarrow> string" where
  "show_nat n = (if n < 10 then [digit_char n] else show_nat (n div 10) @ [digit_char (n mod 10)])"

declare show_nat.simps [simp del]

definition show_int :: "int \<Rightarrow> string" where
  "show_int i = (if i < 0 then CHR ''-'' # show_nat (nat (- i)) else show_nat (nat i))"

section \<open>Values of the parsed manifest\<close>

text \<open>
  What \<^verbatim>\<open>yaml.load\<close> hands to the handler: \<^verbatim>\<open>undefined\<close> (an empty document),
  \<^verbatim>\<open>null\<close>, booleans, numbers, strings, arrays and plain objects. The handler looks at
  a number in two ways only, its truth value and its conversion to a string, so \<open>JNum z t\<close>
  is a number by these two: \<open>z\<close> says that it is neither zero nor \<^verbatim>\<open>NaN\<close>, and \<open>t\<close> is
  the text \<^verbatim>\<open>String\<close> gives for it (\<^verbatim>\<open>8080\<close>, \<^verbatim>\<open>0.5\<close>, \<^verbatim>\<open>1e+21\<close>). An object is the
  list of its own properties in insertion order; none of its values is callable. What an
  object inherits from \<^verbatim>\<open>Object.prototype\<close> enters where the handler reaches it: the
  conversion to a string, which an own \<^verbatim>\<open>toString\<close> key shadows, and the assignment to
  the key \<^verbatim>\<open>__proto__\<close>, which is a setter.
\<close>

datatype jsval =
    JUndefined
  | JNull
  | JBool bool
  | JNum bool string
  | JStr string
  | JArr "jsval list"
  | JObj "(string \<times> jsval) list"

text \<open>
  Exceptions. \<open>TypeError\<close> is raised by the language itself (reading a property of
  \<^verbatim>\<open>null\<close>, iterating a value that is not iterable), \<open>Error\<close> is \<^verbatim>\<open>new Error(msg)\<close> of
  the handler, and \<open>External\<close> carries the rendering of whatever a collaborator
  (\<^verbatim>\<open>import\<close>, \<^verbatim>\<open>readFileSync\<close>, \<^verbatim>\<open>yaml.load\<close>) threw.
\<close>

datatype error = Error string | TypeError string | External string

fun error_text :: "error \<Rightarrow> string" where
  "error_text (Error m) = ''Error: '' @ m"
| "error_text (TypeError m) = ''TypeError: '' @ m"
| "error_text (External m) = m"

fun truthy :: "jsval \<Rightarrow> bool" where
  "truthy JUndefined = False"
| "truthy JNull = False"
| "truthy (JBool b) = b"
| "truthy (JNum z t) = z"
| "truthy (JStr s) = (s \<noteq> [])"
| "truthy (JArr xs) = True"
| "truthy (JObj kvs) = True"

fun join_with :: "string \<Rightarrow> string list \<Rightarrow> string" where
  "join_with sep [] = []"
| "join_with sep [x] = x"
| "join_with sep (x # y # ys) = x @ sep @ join_with sep (y # ys)"

text \<open>The results of a sequence of conversions, or the first exception among them.\<close>

fun collect_results :: "(error + 'a) list \<Rightarrow> error + 'a list" where
  "collect_results [] = Inr []"
| "collect_results (Inl e # rs) = Inl e"
| "collect_results (Inr x # rs) =
     (case collect_results rs of Inl e \<Rightarrow> Inl e | Inr xs \<Rightarrow> Inr (x # xs))"

text \<open>
  \<^verbatim>\<open>String(v)\<close>, which is what a template literal applies. An array joins its elements
  with commas, converting each in turn, \<^verbatim>\<open>null\<close> and \<^verbatim>\<open>undefined\<close> elements
  contributing the empty string. An object is converted by the \<^verbatim>\<open>toString\<close> it
  inherits, unless it has an own \<^verbatim>\<open>toString\<close> key: that value is not callable, the
  inherited \<^verbatim>\<open>valueOf\<close> (or an own one) gives no primitive either, and the conversion
  throws.
\<close>

fun to_string :: "jsval \<Rightarrow> error + string" where
  "to_string JUndefined = Inr ''undefined''"
| "to_string JNull = Inr ''null''"
| "to_string (JBool b) = Inr (if b then ''true'' else ''false'')"
| "to_string (JNum z t) = Inr t"
| "to_string (JStr s) = Inr s"
| "to_string (JArr xs) =
     (case collect_results
             (map (\<lambda>x. if x = JNull \<or> x = JUndefined then Inr [] else to_string x) xs) of
        Inl e \<Rightarrow> Inl e
      | Inr ss \<Rightarrow> Inr (join_with '','' ss))"
| "to_string (JObj kvs) =
     (case map_of kvs ''toString'' of
        Some v \<Rightarrow> Inl (TypeError ''Cannot convert object to primitive value'')
      | None \<Rightarrow> Inr ''[object Object]'')"

text \<open>
  \<^verbatim>\<open>v.toString()\<close>: the method call itself throws on \<^verbatim>\<open>null\<close> and \<^verbatim>\<open>undefined\<close>, and
  on an object whose own \<^verbatim>\<open>toString\<close> key holds a value, which is not a function.
\<close>

fun js_toString :: "jsval \<Rightarrow> error + string" where
  "js_toString JUndefined = Inl (TypeError ''Cannot read properties of undefined (reading toString)'')"
| "js_toString JNull = Inl (TypeError ''Cannot read properties of null (reading toString)'')"
| "js_toString (JObj kvs) =
     (case map_of kvs ''toString'' of
        Some v \<Rightarrow> Inl (TypeError ''p.toString is not a function'')
      | None \<Rightarrow> Inr ''[object Object]'')"
| "js_toString v = to_string v"

text \<open>
  Own property keys come out in the language's order: array indices (canonical decimal
  numerals below \<open>2^32 - 1\<close>) ascending, then every other key in insertion order.
\<close>

definition digit_value :: "char \<Rightarrow> nat" where
  "digit_value c = of_char c - 48"

definition read_nat :: "string \<Rightarrow> nat" where
  "read_nat s = foldl (\<lambda>n c. 10 * n + digit_value c) 0 s"

definition array_index :: "string \<Rightarrow> nat option" where
  "array_index k =
     (if k \<noteq> [] \<and> list_all is_digit k \<and> (k = ''0'' \<or> hd k \<noteq> CHR ''0'')
         \<and> int (read_nat k) < 4294967295
      then Some (read_nat k) else None)"

definition index_value :: "string \<Rightarrow> nat" where
  "index_value k = (case array_index k of Some n \<Rightarrow> n | None \<Rightarrow> 0)"

definition is_array_index :: "string \<Rightarrow> bool" where
  "is_array_index k = (array_index k \<noteq> None)"

definition js_key_order :: "string list \<Rightarrow> string list" where
  "js_key_order ks =
     sort_key index_value (filter is_array_index ks)
     @ filter (\<lambda>k. \<not> is_array_index k) ks"

text \<open>\<^verbatim>\<open>Object.keys(v)\<close>\<close>

fun object_keys :: "jsval \<Rightarrow> error + string list" where
  "object_keys JUndefined = Inl (TypeError ''Cannot convert undefined or null to object'')"
| "object_keys JNull = Inl (TypeError ''Cannot convert undefined or null to object'')"
| "object_keys (JBool b) = Inr []"
| "object_keys (JNum z t) = Inr []"
| "object_keys (JStr s) = Inr (map show_nat [0..<length s])"
| "object_keys (JArr xs) = Inr (map show_nat [0..<length xs])"
| "object_keys (JObj kvs) = Inr (js_key_order (map fst kvs))"

text \<open>
  An object has each of its own keys once; the list that stands for it must too.
\<close>

fun own_keys_distinct :: "jsval \<Rightarrow> bool" where
  "own_keys_distinct (JObj kvs) = distinct (map fst kvs)"
| "own_keys_distinct v = True"

text \<open>
  \<^verbatim>\<open>v[k]\<close>: reading a property throws on \<^verbatim>\<open>null\<close> and \<^verbatim>\<open>undefined\<close> only. The handler
  reads the keys \<^verbatim>\<open>services\<close>, \<^verbatim>\<open>container_name\<close> and \<^verbatim>\<open>ports\<close>, which no prototype
  has, and keys that \<^verbatim>\<open>Object.keys\<close> returned, which are own.
\<close>

fun get_prop :: "jsval \<Rightarrow> string \<Rightarrow> error + jsval" where
  "get_prop JUndefined k = Inl (TypeError (''Cannot read properties of undefined (reading '' @ k @ '')''))"
| "get_prop JNull k = Inl (TypeError (''Cannot read properties of null (reading '' @ k @ '')''))"
| "get_prop (JBool b) k = Inr JUndefined"
| "get_prop (JNum z t) k = Inr JUndefined"
| "get_prop (JStr s) k =
     (case array_index k of
        Some i \<Rightarrow> Inr (if i < length s then JStr [s ! i] else JUndefined)
      | None \<Rightarrow> Inr (if k = ''length'' then JNum (length s \<noteq> 0) (show_nat (length s)) else JUndefined))"
| "get_prop (JArr xs) k =
     (case array_index k of
        Some i \<Rightarrow> Inr (if i < length xs then xs ! i else JUndefined)
      | None \<Rightarrow> Inr (if k = ''length'' then JNum (length xs \<noteq> 0) (show_nat (length xs)) else JUndefined))"
| "get_prop (JObj kvs) k = Inr (case map_of kvs k of Some v \<Rightarrow> v | None \<Rightarrow> JUndefined)"

text \<open>\<^verbatim>\<open>for (const p of v)\<close>: arrays and strings are iterable, nothing else here is.\<close>

fun js_iterate :: "jsval \<Rightarrow> error + jsval list" where
  "js_iterate (JArr xs) = Inr xs"
| "js_iterate (JStr s) = Inr (map (\<lambda>c. JStr [c]) s)"
| "js_iterate v = Inl (TypeError ''def.ports is not iterable'')"

section \<open>The invocation context\<close>

text \<open>
  Everything the handler obtains from outside is a field of the environment: its inputs,
  the two \<^verbatim>\<open>path\<close> functions, whether the file exists, what reading and parsing the
  manifest gives (\<open>Inl\<close> when \<^verbatim>\<open>import\<close>, \<^verbatim>\<open>readFileSync\<close> or \<^verbatim>\<open>yaml.load\<close> throws),
  the standard output of the \<open>n\<close>-th container listing of the port pass, the exit code of
  \<^verbatim>\<open>docker compose up\<close> (\<open>None\<close> is the \<^verbatim>\<open>null\<close> of a process ended by a signal) and the
  standard output of the port query of each service.
\<close>

record env =
  workDir :: "string option"
  workspacePath :: string
  composeFile :: string
  pathJoin :: "string \<Rightarrow> string \<Rightarrow> string"
  pathBasename :: "string \<Rightarrow> string"
  existsSync :: "string \<Rightarrow> bool"
  loadManifest :: "string \<Rightarrow> error + jsval"
  psOutput :: "nat \<Rightarrow> string"
  upExitCode :: "int option"
  portOutput :: "string \<Rightarrow> string"

record svcInfo =
  service :: string
  containerName :: jsval
  expectedHostPorts :: "string list"

record portBinding =
  hostPort :: string
  containerPort :: string

type_synonym portsMap = "(string \<times> portBinding list) list"

record result =
  webUrl :: string
  ports :: portsMap

text \<open>
  What the handler does to the outside, in order: log lines, the spawned commands and the
  two \<^verbatim>\<open>ctx.output\<close> calls. \<open>Remove n\<close> is one call of \<^verbatim>\<open>removeContainer(n)\<close>,
  \<open>ListContainers\<close> one \<^verbatim>\<open>docker ps\<close> listing of the port pass, \<open>PortQuery s\<close> the
  discovery query of service \<open>s\<close>. The output that the spawned processes write is passed
  on to the logger by the handler and is not repeated in the trace.
\<close>

datatype level = Info | Warn | Err

datatype event =
    Log level string
  | LogCleanupInfo "svcInfo list"
  | LogExposedPorts portsMap
  | Remove string
  | ListContainers
  | ComposeUp string string
  | PortQuery string
  | OutputPorts portsMap
  | OutputWebUrl string

section \<open>Step 1: the services of the manifest\<close>

text \<open>
  The body of the \<^verbatim>\<open>try\<close> block. When it throws, the exception comes with the value
  \<^verbatim>\<open>composeDoc\<close> holds at that moment: still \<^verbatim>\<open>{}\<close> when loading failed, the loaded value
  when reading \<^verbatim>\<open>.services\<close> failed.
\<close>

definition manifest_try :: "error + jsval \<Rightarrow> (error \<times> jsval) + (string list \<times> jsval \<times> event list)" where
  "manifest_try loaded =
     (case loaded of
        Inl e \<Rightarrow> Inl (e, JObj [])
      | Inr composeDoc \<Rightarrow>
          (case get_prop composeDoc ''services'' of
             Inl e \<Rightarrow> Inl (e, composeDoc)
           | Inr services \<Rightarrow>
               if truthy services
               then (case object_keys services of
                       Inl e \<Rightarrow> Inl (e, composeDoc)
                     | Inr serviceNames \<Rightarrow>
                         Inr (serviceNames, composeDoc,
                              [Log Info (''Detected services: '' @ join_with '', '' serviceNames)]))
               else Inr ([], composeDoc, [])))"

definition read_manifest :: "error + jsval \<Rightarrow> string list \<times> jsval \<times> event list" where
  "read_manifest loaded =
     (case manifest_try loaded of
        Inl (e, composeDoc) \<Rightarrow>
          ([], composeDoc, [Log Warn (''Failed to parse compose file: '' @ error_text e)])
      | Inr r \<Rightarrow> r)"

section \<open>Step 2: removing containers by name and by port\<close>

text \<open>The inner loop over \<^verbatim>\<open>def.ports\<close>; \<open>acc\<close> is \<^verbatim>\<open>expectedHostPorts\<close> so far.\<close>

fun host_ports_loop :: "jsval list \<Rightarrow> string list \<Rightarrow> error + string list" where
  "host_ports_loop [] acc = Inr acc"
| "host_ports_loop (p # ps) acc =
     (case js_toString p of
        Inl e \<Rightarrow> Inl e
      | Inr s \<Rightarrow>
          (let parts = js_split '':'' s
           in host_ports_loop ps (if length parts \<ge> 2 then acc @ [parts ! 0] else acc)))"

definition expected_host_ports :: "jsval \<Rightarrow> error + string list" where
  "expected_host_ports def =
     (case get_prop def ''ports'' of
        Inl e \<Rightarrow> Inl e
      | Inr ps \<Rightarrow>
          if truthy ps
          then (case js_iterate ps of Inl e \<Rightarrow> Inl e | Inr items \<Rightarrow> host_ports_loop items [])
          else Inr [])"

definition svc_info :: "string \<Rightarrow> jsval \<Rightarrow> string \<Rightarrow> error + svcInfo" where
  "svc_info composeDirName composeDoc s =
     (case get_prop composeDoc ''services'' of
        Inl e \<Rightarrow> Inl e
      | Inr services \<Rightarrow>
     (case get_prop services s of
        Inl e \<Rightarrow> Inl e
      | Inr def \<Rightarrow>
     (case get_prop def ''container_name'' of
        Inl e \<Rightarrow> Inl e
      | Inr cn \<Rightarrow>
     (case expected_host_ports def of
        Inl e \<Rightarrow> Inl e
      | Inr hps \<Rightarrow>
          Inr \<lparr> service = s,
                containerName = (if truthy cn then cn else JStr (composeDirName @ ''_'' @ s @ ''_1'')),
                expectedHostPorts = hps \<rparr>))))"

fun svc_infos :: "string \<Rightarrow> jsval \<Rightarrow> string list \<Rightarrow> error + svcInfo list" where
  "svc_infos composeDirName composeDoc [] = Inr []"
| "svc_infos composeDirName composeDoc (s # ss) =
     (case svc_info composeDirName composeDoc s of
        Inl e \<Rightarrow> Inl e
      | Inr i \<Rightarrow>
          (case svc_infos composeDirName composeDoc ss of
             Inl e \<Rightarrow> Inl e
           | Inr is \<Rightarrow> Inr (i # is)))"

text \<open>
  Remove containers by name. The template literal of the log line converts the container
  name to a string; when that throws, the loop ends there with the exception, after the
  removals already made.
\<close>

fun name_pass :: "svcInfo list \<Rightarrow> event list \<times> error option" where
  "name_pass [] = ([], None)"
| "name_pass (svc # svcs) =
     (case to_string (containerName svc) of
        Inl e \<Rightarrow> ([], Some e)
      | Inr n \<Rightarrow>
          (let (evs, r) = name_pass svcs
           in (Log Info (''Removing container by name: '' @ n) # Remove n # evs, r)))"

text \<open>
  The \<^verbatim>\<open>close\<close> callback of one listing: which containers of the listing \<open>out\<close> hold
  the host port. \<open>results\<close> is the array being filled.
\<close>

fun conflicting_lines :: "string \<Rightarrow> string list \<Rightarrow> string list \<Rightarrow> string list" where
  "conflicting_lines port [] results = results"
| "conflicting_lines port (line # lines) results =
     (let parts = js_split '':::'' line
      in conflicting_lines port lines
           (if length parts \<ge> 2 \<and> parts ! 1 \<noteq> [] \<and> js_includes (parts ! 1) (port @ ''->'')
            then results @ [parts ! 0] else results))"

definition conflicting_containers :: "string \<Rightarrow> string \<Rightarrow> string list" where
  "conflicting_containers port out = conflicting_lines port (js_split [CHR 0x0A] (js_trim out)) []"

fun remove_conflicting :: "string \<Rightarrow> string list \<Rightarrow> event list" where
  "remove_conflicting port [] = []"
| "remove_conflicting port (container # cs) =
     Log Warn (''Host port '' @ port @ '' is in use by '' @ container @ ''. Removing...'')
     # Remove container
     # remove_conflicting port cs"

text \<open>
  Remove containers blocking ports. \<open>n\<close> counts the listings made so far, so that each
  listing reads the output the environment has for it.
\<close>

fun check_ports :: "env \<Rightarrow> nat \<Rightarrow> string list \<Rightarrow> event list \<times> nat" where
  "check_ports E n [] = ([], n)"
| "check_ports E n (port # rest) =
     (let evs = Log Info (''Checking port conflict for host port: '' @ port)
                # ListContainers
                # remove_conflicting port (conflicting_containers port (psOutput E n));
          (evs', n') = check_ports E (Suc n) rest
      in (evs @ evs', n'))"

fun port_pass :: "env \<Rightarrow> nat \<Rightarrow> svcInfo list \<Rightarrow> event list \<times> nat" where
  "port_pass E n [] = ([], n)"
| "port_pass E n (svc # svcs) =
     (let (evs, n') = check_ports E n (expectedHostPorts svc);
          (evs', n'') = port_pass E n' svcs
      in (evs @ evs', n''))"

section \<open>Step 4: the published ports\<close>

text \<open>
  \<^verbatim>\<open>line.match(/^(\d+)\/tcp -> [^:]+:(\d+)$/)\<close>: the two groups when the line matches.
  Every part of the expression can match in one way only (a digit is never \<open>/\<close>, a
  character other than \<open>:\<close> is never \<open>:\<close>), so the match is read off from the left.
\<close>

definition match_port_line :: "string \<Rightarrow> (string \<times> string) option" where
  "match_port_line line =
     (let g1 = takeWhile is_digit line;
          r1 = dropWhile is_digit line
      in if g1 = [] \<or> \<not> starts_with r1 ''/tcp -> '' then None
         else
           (let r2 = drop 8 r1;
                addr = takeWhile (\<lambda>c. c \<noteq> CHR '':'') r2;
                r3 = dropWhile (\<lambda>c. c \<noteq> CHR '':'') r2
            in if addr = [] then None
               else (case r3 of
                       [] \<Rightarrow> None
                     | c # g2 \<Rightarrow> if g2 \<noteq> [] \<and> list_all is_digit g2 then Some (g1, g2) else None)))"

fun collect_mappings :: "string list \<Rightarrow> portBinding list \<Rightarrow> portBinding list" where
  "collect_mappings [] mappings = mappings"
| "collect_mappings (line # lines) mappings =
     collect_mappings lines
       (if js_trim line \<noteq> []
        then (case match_port_line line of
                Some (g1, g2) \<Rightarrow> mappings @ [\<lparr> hostPort = g2, containerPort = g1 \<rparr>]
              | None \<Rightarrow> mappings)
        else mappings)"

definition parse_port_output :: "string \<Rightarrow> portBinding list" where
  "parse_port_output output = collect_mappings (js_split [CHR 0x0A] output) []"

text \<open>
  \<^verbatim>\<open>ports[service] = mappings\<close> on the object \<^verbatim>\<open>ports\<close>, which starts as \<^verbatim>\<open>{}\<close> and is
  kept in insertion order. Assigning to the key \<^verbatim>\<open>__proto__\<close> runs the setter of
  \<^verbatim>\<open>Object.prototype\<close>: it replaces the prototype and creates no own property. Every
  other key becomes, or stays, an own property.
\<close>

fun obj_set :: "string \<Rightarrow> 'v \<Rightarrow> (string \<times> 'v) list \<Rightarrow> (string \<times> 'v) list" where
  "obj_set k v [] = (if k = ''__proto__'' then [] else [(k, v)])"
| "obj_set k v ((k', v') # rest) =
     (if k = ''__proto__'' then (k', v') # rest
      else if k = k' then (k, v) # rest
      else (k', v') # obj_set k v rest)"

fun discover :: "env \<Rightarrow> string list \<Rightarrow> portsMap \<Rightarrow> portsMap \<times> event list" where
  "discover E [] pm = (pm, [])"
| "discover E (s # ss) pm =
     (let mappings = parse_port_output (portOutput E s);
          (pm', evs) = discover E ss (obj_set s mappings pm)
      in (pm', PortQuery s # evs))"

section \<open>Step 5: the first web URL\<close>

text \<open>\<^verbatim>\<open>Object.entries(ports)\<close>\<close>

definition object_entries :: "(string \<times> 'v) list \<Rightarrow> (string \<times> 'v) list" where
  "object_entries obj =
     concat (map (\<lambda>k. case map_of obj k of Some v \<Rightarrow> [(k, v)] | None \<Rightarrow> [])
                 (js_key_order (map fst obj)))"

fun pick_web_url :: "(string \<times> portBinding list) list \<Rightarrow> string" where
  "pick_web_url [] = []"
| "pick_web_url ((s, []) # rest) = pick_web_url rest"
| "pick_web_url ((s, m # ms) # rest) = ''http://localhost:'' @ hostPort m"

section \<open>The handler\<close>

definition launch_failure :: "int option \<Rightarrow> string" where
  "launch_failure code =
     ''docker compose up exited with code '' @ (case code of Some c \<Rightarrow> show_int c | None \<Rightarrow> ''null'')"

text \<open>Steps 4 and 5, reached only after \<^verbatim>\<open>docker compose up\<close> has exited with code 0.\<close>

definition report :: "env \<Rightarrow> string list \<Rightarrow> event list \<times> result" where
  "report E serviceNames =
     (let (pm, evs) = discover E serviceNames [];
          url = pick_web_url (object_entries pm)
      in (evs @ [LogExposedPorts pm, OutputPorts pm, OutputWebUrl url,
                 Log Info (''Application available at: '' @ url)],
          \<lparr> webUrl = url, ports = pm \<rparr>))"

text \<open>Step 3 and what follows it.\<close>

definition launch :: "env \<Rightarrow> string \<Rightarrow> string \<Rightarrow> string list \<Rightarrow> event list \<times> (error + result)" where
  "launch E composePath cwd serviceNames =
     (let evs = [Log Info ''Starting Docker Compose...'', ComposeUp composePath cwd]
      in if upExitCode E = Some 0
         then (let (evs', r) = report E serviceNames
               in (evs @ Log Info ''Docker Compose executed successfully.'' # evs', Inr r))
         else (evs @ [Log Err (launch_failure (upExitCode E))],
               Inl (Error (launch_failure (upExitCode E)))))"

text \<open>\<^verbatim>\<open>ctx.input.workDir ?? ctx.workspacePath\<close> and the path of the compose file.\<close>

definition cwd_of :: "env \<Rightarrow> string" where
  "cwd_of E = (case workDir E of Some d \<Rightarrow> d | None \<Rightarrow> workspacePath E)"

definition compose_path :: "env \<Rightarrow> string" where
  "compose_path E = pathJoin E (cwd_of E) (composeFile E)"

definition handler :: "env \<Rightarrow> event list \<times> (error + result)" where
  "handler E =
     (let cwd = cwd_of E;
          composePath = compose_path E;
          evs0 = [Log Info (''Compose file: '' @ composePath)]
      in if \<not> existsSync E composePath
         then (evs0, Inl (Error (''Compose file not found: '' @ composePath)))
         else
           (let (serviceNames, composeDoc, evs1) = read_manifest (loadManifest E composePath)
            in case svc_infos (pathBasename E cwd) composeDoc serviceNames of
                 Inl e \<Rightarrow> (evs0 @ evs1, Inl e)
               | Inr infos \<Rightarrow>
                   (case name_pass infos of
                      (evsN, Some e) \<Rightarrow> (evs0 @ evs1 @ LogCleanupInfo infos # evsN, Inl e)
                    | (evsN, None) \<Rightarrow>
                        (let evs2 = LogCleanupInfo infos # evsN @ fst (port_pass E 0 infos);
                             (evs3, r) = launch E composePath cwd serviceNames
                         in (evs0 @ evs1 @ evs2 @ evs3, r)))))"

section \<open>Reading the trace and the stages\<close>

text \<open>The service list of step 1 and the cleanup records of step 2, for an environment.\<close>

definition service_names :: "env \<Rightarrow> string list" where
  "service_names E = fst (read_manifest (loadManifest E (compose_path E)))"

definition cleanup_infos :: "env \<Rightarrow> error + svcInfo list" where
  "cleanup_infos E =
     (let (serviceNames, composeDoc, evs) = read_manifest (loadManifest E (compose_path E))
      in svc_infos (pathBasename E (cwd_of E)) composeDoc serviceNames)"

text \<open>The loaded document and the definition of a service in it, \<^verbatim>\<open>composeDoc.services[s]\<close>.\<close>

definition compose_doc :: "env \<Rightarrow> jsval" where
  "compose_doc E = fst (snd (read_manifest (loadManifest E (compose_path E))))"

definition service_def :: "env \<Rightarrow> string \<Rightarrow> error + jsval" where
  "service_def E s =
     (case get_prop (compose_doc E) ''services'' of
        Inl e \<Rightarrow> Inl e
      | Inr services \<Rightarrow> get_prop services s)"

definition manifest_events :: "env \<Rightarrow> event list" where
  "manifest_events E = snd (snd (read_manifest (loadManifest E (compose_path E))))"

text \<open>The container names of the removal attempts of a trace, and its warnings, in order.\<close>

fun removals :: "event list \<Rightarrow> string list" where
  "removals [] = []"
| "removals (Remove n # es) = n # removals es"
| "removals (e # es) = removals es"

fun warnings :: "event list \<Rightarrow> string list" where
  "warnings [] = []"
| "warnings (Log Warn m # es) = m # warnings es"
| "warnings (e # es) = warnings es"

fun port_queries :: "event list \<Rightarrow> string list" where
  "port_queries [] = []"
| "port_queries (PortQuery s # es) = s # port_queries es"
| "port_queries (e # es) = port_queries es"

fun launches :: "event list \<Rightarrow> (string \<times> string) list" where
  "launches [] = []"
| "launches (ComposeUp p d # es) = (p, d) # launches es"
| "launches (e # es) = launches es"

section \<open>Environments to run the handler on\<close>

text \<open>
  Services \<^verbatim>\<open>api\<close> (port \<^verbatim>\<open>3000:3000\<close>) and \<^verbatim>\<open>db\<close> (no ports, \<^verbatim>\<open>container_name: mydb\<close>),
  nothing running beforehand, the stack starts, and \<^verbatim>\<open>api\<close> is found on host port 32800.
\<close>

definition example_env :: env where
  "example_env =
     \<lparr> workDir = None, workspacePath = ''/ws/proj'', composeFile = ''docker-compose.yml'',
       pathJoin = (\<lambda>a b. a @ ''/'' @ b), pathBasename = (\<lambda>p. ''proj''),
       existsSync = (\<lambda>p. True),
       loadManifest = (\<lambda>p. Inr (JObj [(''services'',
          JObj [(''api'', JObj [(''ports'', JArr [JStr ''3000:3000''])]),
                (''db'', JObj [(''container_name'', JStr ''mydb'')])])])),
       psOutput = (\<lambda>n. []), upExitCode = Some 0,
       portOutput = (\<lambda>s. if s = ''api'' then ''3000/tcp -> 0.0.0.0:32800'' @ [CHR 0x0A] else []) \<rparr>"

text \<open>The same with \<^verbatim>\<open>docker compose up\<close> exiting with code 1.\<close>

definition failing_up_env :: env where
  "failing_up_env = example_env \<lparr> upExitCode := Some 1 \<rparr>"

text \<open>A manifest whose service \<^verbatim>\<open>web\<close> has an empty body: \<^verbatim>\<open>services: { web: null }\<close>.\<close>

definition null_service_env :: env where
  "null_service_env =
     example_env \<lparr> loadManifest := (\<lambda>p. Inr (JObj [(''services'', JObj [(''web'', JNull)])])) \<rparr>"

text \<open>
  Service \<^verbatim>\<open>web\<close> asking for host ports 80 and 443 and service \<^verbatim>\<open>db\<close>, named
  \<^verbatim>\<open>mydb\<close>, asking for 5432; a container \<^verbatim>\<open>x\<close> publishing 80 and 443 and a container
  \<^verbatim>\<open>y\<close> publishing 5432, which every listing still shows.
\<close>

definition repeated_conflict_env :: env where
  "repeated_conflict_env =
     example_env \<lparr>
       loadManifest := (\<lambda>p. Inr (JObj [(''services'',
          JObj [(''web'', JObj [(''ports'', JArr [JStr ''80:80'', JStr ''443:443''])]),
                (''db'', JObj [(''container_name'', JStr ''mydb''),
                               (''ports'', JArr [JStr ''5432:5432''])])])])),
       psOutput := (\<lambda>n. ''x:::0.0.0.0:80->80/tcp, 0.0.0.0:443->443/tcp'' @ [CHR 0x0A]
                          @ ''y:::0.0.0.0:5432->5432/tcp'' @ [CHR 0x0A]) \<rparr>"

text \<open>
  Services \<^verbatim>\<open>__proto__\<close> and \<^verbatim>\<open>web\<close>, in this order, both own keys of the services
  mapping; the container of \<^verbatim>\<open>__proto__\<close> is found on host port 32768, that of
  \<^verbatim>\<open>web\<close> publishes nothing.
\<close>

definition proto_env :: env where
  "proto_env =
     example_env \<lparr>
       loadManifest := (\<lambda>p. Inr (JObj [(''services'',
          JObj [(''__proto__'', JObj [(''image'', JStr ''nginx'')]),
                (''web'', JObj [(''image'', JStr ''nginx'')])])])),
       portOutput := (\<lambda>s. if s = ''__proto__'' then ''80/tcp -> 0.0.0.0:32768'' @ [CHR 0x0A] else []) \<rparr>"

text \<open>
  Services \<^verbatim>\<open>a\<close>, \<^verbatim>\<open>b\<close> and \<^verbatim>\<open>c\<close>, where the \<^verbatim>\<open>container_name\<close> of \<^verbatim>\<open>b\<close> is a
  mapping with a \<^verbatim>\<open>toString\<close> key.
\<close>

definition bad_name_env :: env where
  "bad_name_env =
     example_env \<lparr>
       loadManifest := (\<lambda>p. Inr (JObj [(''services'',
          JObj [(''a'', JObj [(''container_name'', JStr ''x'')]),
                (''b'', JObj [(''container_name'', JObj [(''toString'', JNum True ''1'')])]),
                (''c'', JObj [(''container_name'', JStr ''z'')])])])) \<rparr>"

text \<open>A manifest that is a mapping without a \<^verbatim>\<open>services\<close> key, and one that fails to parse.\<close>

definition no_services_env :: env where
  "no_services_env = example_env \<lparr> loadManifest := (\<lambda>p. Inr (JObj [(''version'', JStr ''3'')])) \<rparr>"

definition unparsable_env :: env where
  "unparsable_env =
     example_env \<lparr> loadManifest := (\<lambda>p. Inl (External ''YAMLException: bad indentation'')) \<rparr>"

section \<open>Facts about the string functions\<close>

lemma starts_with_append: "starts_with (p @ s) p"
  by (induction p) auto

lemma starts_with_decomp: "starts_with s p \<Longrightarrow> s = p @ drop (length p) s"
  by (induction s p rule: starts_with.induct) auto

lemma js_trim_eq_Nil: "js_trim s = [] \<longleftrightarrow> (\<forall>c\<in>set s. is_space c)"
proof
  assume "js_trim s = []"
  then have a: "\<forall>x\<in>set (dropWhile is_space s). is_space x"
    by (simp add: js_trim_def dropWhile_eq_Nil_conv)
  show "\<forall>c\<in>set s. is_space c"
  proof (cases "dropWhile is_space s")
    case Nil
    then show ?thesis by (simp add: dropWhile_eq_Nil_conv)
  next
    case (Cons y ys)
    then have "\<not> is_space (hd (dropWhile is_space s))"
      using hd_dropWhile[of is_space s] by simp
    moreover have "hd (dropWhile is_space s) \<in> set (dropWhile is_space s)"
      using Cons by simp
    ultimately show ?thesis using a by blast
  qed
next
  assume "\<forall>c\<in>set s. is_space c"
  then show "js_trim s = []"
    by (auto simp: js_trim_def dropWhile_eq_Nil_conv dest: set_dropWhileD)
qed

lemma digit_not_space: "is_digit c \<Longrightarrow> \<not> is_space c"
  by (auto simp: is_digit_def is_space_def)

lemma js_trim_digit_line: "cp \<noteq> [] \<Longrightarrow> list_all is_digit cp \<Longrightarrow> js_trim (cp @ rest) \<noteq> []"
proof -
  assume a: "cp \<noteq> []" "list_all is_digit cp"
  then have "hd cp \<in> set (cp @ rest)" "\<not> is_space (hd cp)"
    by (auto simp: list_all_iff digit_not_space)
  then show ?thesis unfolding js_trim_eq_Nil by blast
qed

section \<open>Declared host ports\<close>

text \<open>
  C1. The host port a port specification declares. \<^verbatim>\<open>"8080:80"\<close> gives \<^verbatim>\<open>"8080"\<close> and
  \<^verbatim>\<open>"80"\<close> gives none, as stated. For the IP-bound form \<^verbatim>\<open>"127.0.0.1:8080:80"\<close> the
  handler takes the first of the three pieces, so what it records as the host port is the
  address \<^verbatim>\<open>"127.0.0.1"\<close> and not \<^verbatim>\<open>"8080"\<close>.
\<close>

theorem expected_host_ports_of_specs:
  "expected_host_ports (JObj [(''ports'', JArr [JStr ''8080:80''])]) = Inr [''8080'']
   \<and> expected_host_ports (JObj [(''ports'', JArr [JStr ''80''])]) = Inr []
   \<and> expected_host_ports (JObj [(''ports'', JArr [JStr ''127.0.0.1:8080:80''])]) = Inr [''127.0.0.1'']"
  by code_simp

section \<open>The port conflict test\<close>

text \<open>
  C2. Checking host port \<^verbatim>\<open>80\<close> against a listing whose only container publishes host
  port \<^verbatim>\<open>8080\<close>: the text \<^verbatim>\<open>8080->\<close> contains \<^verbatim>\<open>80->\<close>, so the container is reported as
  holding port 80 and will be removed.
\<close>

theorem port_80_flags_8080_container:
  "js_includes ''0.0.0.0:8080->80/tcp'' (''80'' @ ''->'')
   \<and> conflicting_containers ''80'' ''web:::0.0.0.0:8080->80/tcp'' = [''web'']"
  by code_simp

section \<open>Port-mapping lines\<close>

lemma match_port_line_form:
  assumes "cp \<noteq> []" "list_all is_digit cp" "addr \<noteq> []" "CHR '':'' \<notin> set addr"
    "hp \<noteq> []" "list_all is_digit hp"
  shows "match_port_line (cp @ ''/tcp -> '' @ addr @ '':'' @ hp) = Some (cp, hp)"
proof -
  have d: "\<And>x. x \<in> set cp \<Longrightarrow> is_digit x" using assms(2) by (simp add: list_all_iff)
  have t1: "takeWhile is_digit (cp @ ''/tcp -> '' @ addr @ '':'' @ hp) = cp"
    using d by (simp add: takeWhile_append2 is_digit_def)
  have d1: "dropWhile is_digit (cp @ ''/tcp -> '' @ addr @ '':'' @ hp) = ''/tcp -> '' @ addr @ '':'' @ hp"
    using d by (simp add: dropWhile_append2 is_digit_def)
  have a: "\<And>x. x \<in> set addr \<Longrightarrow> x \<noteq> CHR '':''" using assms(4) by auto
  have t2: "takeWhile (\<lambda>c. c \<noteq> CHR '':'') (addr @ '':'' @ hp) = addr"
    using a by (simp add: takeWhile_append2)
  have d2: "dropWhile (\<lambda>c. c \<noteq> CHR '':'') (addr @ '':'' @ hp) = '':'' @ hp"
    using a by (simp add: dropWhile_append2)
  show ?thesis
    unfolding match_port_line_def t1 d1 using assms(1,3,5,6) t2 d2
    by (simp add: Let_def)
qed

lemma match_port_line_Some:
  assumes "match_port_line line = Some (g1, g2)"
  shows "\<exists>addr. line = g1 @ ''/tcp -> '' @ addr @ '':'' @ g2 \<and> g1 \<noteq> [] \<and> list_all is_digit g1
     \<and> addr \<noteq> [] \<and> CHR '':'' \<notin> set addr \<and> g2 \<noteq> [] \<and> list_all is_digit g2"
proof -
  let ?r1 = "dropWhile is_digit line"
  let ?r2 = "drop 8 ?r1"
  let ?addr = "takeWhile (\<lambda>c. c \<noteq> CHR '':'') ?r2"
  let ?r3 = "dropWhile (\<lambda>c. c \<noteq> CHR '':'') ?r2"
  from assms have g1: "g1 = takeWhile is_digit line" and ne: "g1 \<noteq> []"
    and sw: "starts_with ?r1 ''/tcp -> ''" and an: "?addr \<noteq> []"
    by (auto simp: match_port_line_def Let_def split: if_splits list.splits)
  from assms obtain c where r3: "?r3 = c # g2" and g2: "g2 \<noteq> []" "list_all is_digit g2"
    by (auto simp: match_port_line_def Let_def split: if_splits list.splits)
  have "\<not> (hd ?r3 \<noteq> CHR '':'')" using hd_dropWhile[of "\<lambda>c. c \<noteq> CHR '':''" ?r2] r3 by simp
  then have c: "c = CHR '':''" using r3 by simp
  have "line = g1 @ ?r1" using g1 by simp
  also have "?r1 = ''/tcp -> '' @ ?r2"
  proof -
    have "length ''/tcp -> '' = 8" by simp
    then show ?thesis using starts_with_decomp[OF sw] by (simp only:)
  qed
  also have "?r2 = ?addr @ ?r3" by simp
  finally have "line = g1 @ ''/tcp -> '' @ ?addr @ '':'' @ g2" using r3 c by simp
  moreover have "list_all is_digit g1" unfolding g1 list_all_iff using set_takeWhileD by fastforce
  moreover have "CHR '':'' \<notin> set ?addr" using set_takeWhileD by fastforce
  ultimately show ?thesis using ne an g2 by blast
qed

lemma udp_line_no_match: "match_port_line ''443/udp -> 0.0.0.0:443'' = None"
  by code_simp

text \<open>
  A line whose host address contains a colon, as the IPv6 lines of \<^verbatim>\<open>docker port\<close> do,
  has the form \<^verbatim>\<open><digits>/tcp -> <hostAddress>:<digits>\<close> and yet gives no binding:
  the expression asks for an address without \<open>:\<close>.
\<close>

theorem ipv6_port_line_skipped:
  "''80/tcp -> [::]:32768'' = ''80'' @ ''/tcp -> '' @ ''[::]'' @ '':'' @ ''32768''
   \<and> parse_port_output ''80/tcp -> [::]:32768'' = []"
  by code_simp

text \<open>
  C7, amended. A line \<^verbatim>\<open><digits>/tcp -> <hostAddress>:<digits>\<close> whose host address is not
  empty and contains no colon adds the binding with the digits before \<^verbatim>\<open>/tcp\<close> as
  container port and the digits after the colon as host port; every line that is not of
  this form adds nothing, and the loop goes on with the next line.
\<close>

theorem port_line_binding:
  "(cp \<noteq> [] \<and> list_all is_digit cp \<and> addr \<noteq> [] \<and> CHR '':'' \<notin> set addr
      \<and> hp \<noteq> [] \<and> list_all is_digit hp \<longrightarrow>
    collect_mappings ((cp @ ''/tcp -> '' @ addr @ '':'' @ hp) # lines) ms
      = collect_mappings lines (ms @ [\<lparr> hostPort = hp, containerPort = cp \<rparr>]))
   \<and> ((\<nexists>g1 a g2. line = g1 @ ''/tcp -> '' @ a @ '':'' @ g2 \<and> g1 \<noteq> [] \<and> list_all is_digit g1
          \<and> a \<noteq> [] \<and> CHR '':'' \<notin> set a \<and> g2 \<noteq> [] \<and> list_all is_digit g2) \<longrightarrow>
    collect_mappings (line # lines) ms = collect_mappings lines ms)"
proof (intro conjI impI)
  assume "cp \<noteq> [] \<and> list_all is_digit cp \<and> addr \<noteq> [] \<and> CHR '':'' \<notin> set addr
      \<and> hp \<noteq> [] \<and> list_all is_digit hp"
  then show "collect_mappings ((cp @ ''/tcp -> '' @ addr @ '':'' @ hp) # lines) ms
      = collect_mappings lines (ms @ [\<lparr> hostPort = hp, containerPort = cp \<rparr>])"
    using match_port_line_form[of cp addr hp] js_trim_digit_line[of cp "''/tcp -> '' @ addr @ '':'' @ hp"]
    by simp
next
  assume n: "\<nexists>g1 a g2. line = g1 @ ''/tcp -> '' @ a @ '':'' @ g2 \<and> g1 \<noteq> [] \<and> list_all is_digit g1
          \<and> a \<noteq> [] \<and> CHR '':'' \<notin> set a \<and> g2 \<noteq> [] \<and> list_all is_digit g2"
  have "match_port_line line = None"
  proof (cases "match_port_line line")
    case None then show ?thesis .
  next
    case (Some g)
    obtain g1 g2 where "g = (g1, g2)" by (cases g)
    with Some n match_port_line_Some[of line g1 g2] show ?thesis by blast
  qed
  then show "collect_mappings (line # lines) ms = collect_mappings lines ms" by simp
qed

theorem port_line_binding_witness:
  "parse_port_output ''80/tcp -> 0.0.0.0:32768'' = [\<lparr> hostPort = ''32768'', containerPort = ''80'' \<rparr>]
   \<and> parse_port_output ''443/udp -> 0.0.0.0:443'' = []"
proof -
  have s1: "js_split [CHR 0x0A] ''80/tcp -> 0.0.0.0:32768'' = [''80'' @ ''/tcp -> '' @ ''0.0.0.0'' @ '':'' @ ''32768'']"
    by code_simp
  have s2: "js_split [CHR 0x0A] ''443/udp -> 0.0.0.0:443'' = [''443/udp -> 0.0.0.0:443'']"
    by code_simp
  have h1: "''80'' \<noteq> [] \<and> list_all is_digit ''80'' \<and> ''0.0.0.0'' \<noteq> [] \<and> CHR '':'' \<notin> set ''0.0.0.0''
      \<and> ''32768'' \<noteq> [] \<and> list_all is_digit ''32768''"
    by (simp add: is_digit_def)
  have h2: "\<nexists>g1 a g2. ''443/udp -> 0.0.0.0:443'' = g1 @ ''/tcp -> '' @ a @ '':'' @ g2 \<and> g1 \<noteq> [] \<and> list_all is_digit g1
          \<and> a \<noteq> [] \<and> CHR '':'' \<notin> set a \<and> g2 \<noteq> [] \<and> list_all is_digit g2"
    using match_port_line_form udp_line_no_match by (metis option.distinct(1))
  from h1 port_line_binding[where cp="''80''" and addr="''0.0.0.0''" and hp="''32768''" and lines="[]" and ms="[]"]
  have "parse_port_output ''80/tcp -> 0.0.0.0:32768'' = [\<lparr> hostPort = ''32768'', containerPort = ''80'' \<rparr>]"
    unfolding parse_port_output_def s1 by simp
  moreover from h2 port_line_binding[where line="''443/udp -> 0.0.0.0:443''" and lines="[]" and ms="[]"]
  have "parse_port_output ''443/udp -> 0.0.0.0:443'' = []"
    unfolding parse_port_output_def s2 by simp
  ultimately show ?thesis by simp
qed

section \<open>Decimal numerals and the order of keys\<close>

lemma digit_cases: "d < 10 \<Longrightarrow> d = 0 \<or> d = 1 \<or> d = 2 \<or> d = 3 \<or> d = 4 \<or> d = 5 \<or> d = 6 \<or> d = 7 \<or> d = 8 \<or> d = (9::nat)"
  by arith

lemma digit_char_props:
  assumes "d < 10"
  shows "is_digit (digit_char d)" "digit_value (digit_char d) = d"
    "digit_char d = CHR ''0'' \<longleftrightarrow> d = 0"
  using digit_cases[OF assms]
  by (auto simp: digit_char_def is_digit_def digit_value_def)

lemma show_nat_nonempty: "show_nat n \<noteq> []"
  by (subst show_nat.simps) simp

lemma show_nat_digits: "list_all is_digit (show_nat n)"
proof (induction n rule: show_nat.induct)
  case (1 n)
  show ?case
  proof (cases "n < 10")
    case True
    then show ?thesis by (subst show_nat.simps) (simp add: digit_char_props)
  next
    case False
    then show ?thesis using 1 by (subst show_nat.simps) (simp add: digit_char_props)
  qed
qed

lemma read_nat_snoc: "read_nat (xs @ [c]) = 10 * read_nat xs + digit_value c"
  by (simp add: read_nat_def)

lemma read_show_nat: "read_nat (show_nat n) = n"
proof (induction n rule: show_nat.induct)
  case (1 n)
  show ?case
  proof (cases "n < 10")
    case True
    then show ?thesis by (subst show_nat.simps) (simp add: read_nat_def digit_char_props)
  next
    case False
    then have "read_nat (show_nat (n div 10)) = n div 10" using 1 by simp
    then show ?thesis using False
      by (subst show_nat.simps) (simp add: read_nat_snoc digit_char_props)
  qed
qed

lemma show_nat_hd: "0 < n \<Longrightarrow> hd (show_nat n) \<noteq> CHR ''0''"
proof (induction n rule: show_nat.induct)
  case (1 n)
  show ?case
  proof (cases "n < 10")
    case True
    then show ?thesis using 1(2) by (subst show_nat.simps) (simp add: digit_char_props)
  next
    case False
    then have "0 < n div 10" by simp
    then have "hd (show_nat (n div 10)) \<noteq> CHR ''0''" using 1(1) False by simp
    then show ?thesis using False
      by (subst show_nat.simps) (simp add: show_nat_nonempty)
  qed
qed

lemma show_nat_zero: "show_nat 0 = ''0''"
  by (subst show_nat.simps) (simp add: digit_char_def)

lemma array_index_show_nat:
  "array_index (show_nat n) = (if int n < 4294967295 then Some n else None)"
proof (cases "n = 0")
  case True
  then show ?thesis by (simp add: array_index_def show_nat_zero read_nat_def digit_value_def is_digit_def)
next
  case False
  then show ?thesis
    by (simp add: array_index_def show_nat_nonempty show_nat_digits read_show_nat show_nat_hd)
qed

lemma js_key_order_idem: "js_key_order (js_key_order ks) = js_key_order ks"
proof -
  let ?A = "sort_key index_value (filter is_array_index ks)"
  let ?B = "filter (\<lambda>k. \<not> is_array_index k) ks"
  have a: "filter is_array_index ?A = ?A" by (rule filter_True) auto
  have b: "filter is_array_index ?B = []" by (simp add: filter_empty_conv)
  have a': "filter (\<lambda>k. \<not> is_array_index k) ?A = []" by (auto simp: filter_empty_conv)
  have b': "filter (\<lambda>k. \<not> is_array_index k) ?B = ?B" by simp
  have s: "sort_key index_value ?A = ?A"
    by (rule sort_key_id_if_sorted) simp
  have "js_key_order (?A @ ?B)
          = sort_key index_value (filter is_array_index (?A @ ?B))
            @ filter (\<lambda>k. \<not> is_array_index k) (?A @ ?B)"
    by (simp only: js_key_order_def)
  also have "\<dots> = ?A @ ?B"
    by (simp only: filter_append a b a' b' s append_Nil2 append_Nil)
  finally show ?thesis by (simp only: js_key_order_def[of ks])
qed

lemma js_key_order_Nil: "js_key_order [] = []"
  by (simp add: js_key_order_def)

lemma upt_split_filter:
  "filter (\<lambda>i. i < b) [0..<n] @ filter (\<lambda>i. \<not> i < b) [0..<n] = [0..<n]"
proof (induction n)
  case 0
  show ?case by simp
next
  case (Suc n)
  show ?case
  proof (cases "n < b")
    case True
    then have "filter (\<lambda>i. \<not> i < b) [0..<n] = []" by (auto simp: filter_empty_conv)
    moreover have "filter (\<lambda>i. i < b) [0..<n] = [0..<n]" using True by (auto intro: filter_True)
    ultimately show ?thesis using True by simp
  next
    case False
    then show ?thesis using Suc by simp
  qed
qed

lemma is_array_index_show_nat: "is_array_index (show_nat i) = (int i < 4294967295)"
  by (simp add: is_array_index_def array_index_show_nat)

lemma js_key_order_indices: "js_key_order (map show_nat [0..<n]) = map show_nat [0..<n]"
proof -
  let ?P = "\<lambda>i::nat. i < 4294967295"
  have f1: "filter is_array_index (map show_nat [0..<n]) = map show_nat (filter ?P [0..<n])"
    by (simp add: filter_map o_def is_array_index_show_nat)
  have f2: "filter (\<lambda>k. \<not> is_array_index k) (map show_nat [0..<n]) = map show_nat (filter (\<lambda>i. \<not> ?P i) [0..<n])"
    by (simp add: filter_map o_def is_array_index_show_nat)
  have "map (\<lambda>i. index_value (show_nat i)) (filter ?P [0..<n]) = filter ?P [0..<n]"
    by (rule map_idI) (simp add: index_value_def array_index_show_nat)
  then have "map index_value (map show_nat (filter ?P [0..<n])) = filter ?P [0..<n]"
    by (simp add: o_def)
  moreover have "sorted (filter ?P [0..<n])" by (simp add: sorted_wrt_filter)
  ultimately have "sort_key index_value (map show_nat (filter ?P [0..<n])) = map show_nat (filter ?P [0..<n])"
    by (intro sort_key_id_if_sorted) simp
  then show ?thesis
    unfolding js_key_order_def f1 f2
    by (simp only: map_append[symmetric] upt_split_filter)
qed

lemma object_keys_ordered: "object_keys v = Inr ks \<Longrightarrow> js_key_order ks = ks"
  by (cases v) (auto simp: js_key_order_idem js_key_order_indices js_key_order_Nil)

lemma service_names_ordered: "js_key_order (service_names E) = service_names E"
proof -
  obtain ns doc evs where r: "read_manifest (loadManifest E (compose_path E)) = (ns, doc, evs)"
    by (cases "read_manifest (loadManifest E (compose_path E))") auto
  then have "ns = [] \<or> (\<exists>v. object_keys v = Inr ns)"
    by (auto simp: read_manifest_def manifest_try_def split: sum.splits if_splits prod.splits)
  then show ?thesis
    using r object_keys_ordered by (auto simp: service_names_def js_key_order_Nil)
qed

lemma distinct_js_key_order: "distinct ks \<Longrightarrow> distinct (js_key_order ks)"
  by (auto simp: js_key_order_def)

lemma distinct_show_nat: "distinct (map show_nat [0..<n])"
proof -
  have "inj_on show_nat (set [0..<n])"
    by (rule inj_on_inverseI[where g = read_nat]) (rule read_show_nat)
  then show ?thesis by (simp add: distinct_map)
qed

lemma object_keys_distinct:
  "own_keys_distinct v \<Longrightarrow> object_keys v = Inr ks \<Longrightarrow> distinct ks"
  by (cases v) (auto simp: distinct_js_key_order distinct_show_nat)


text \<open>The service names are distinct whenever the services object has each of its keys once.\<close>

lemma service_names_distinct:
  assumes "\<And>v sv. loadManifest E (compose_path E) = Inr v \<Longrightarrow> get_prop v ''services'' = Inr sv
             \<Longrightarrow> own_keys_distinct sv"
  shows "distinct (service_names E)"
  using assms object_keys_distinct
  by (auto simp: service_names_def read_manifest_def manifest_try_def
           split: sum.splits if_splits prod.splits)

section \<open>The trace of each stage\<close>

lemma removals_append: "removals (xs @ ys) = removals xs @ removals ys"
  by (induction xs rule: removals.induct) auto
lemma warnings_append: "warnings (xs @ ys) = warnings xs @ warnings ys"
  by (induction xs rule: warnings.induct) auto
lemma port_queries_append: "port_queries (xs @ ys) = port_queries xs @ port_queries ys"
  by (induction xs rule: port_queries.induct) auto
lemma launches_append: "launches (xs @ ys) = launches xs @ launches ys"
  by (induction xs rule: launches.induct) auto

lemma read_manifest_cases:
  "read_manifest l = (ns, doc, evs) \<Longrightarrow>
     evs = [] \<or> (\<exists>m. evs = [Log Info m]) \<or> (\<exists>m. evs = [Log Warn m])"
  by (auto simp: read_manifest_def manifest_try_def split: sum.splits if_splits prod.splits)

lemma manifest_events_cases:
  "manifest_events E = [] \<or> (\<exists>m. manifest_events E = [Log Info m]) \<or> (\<exists>m. manifest_events E = [Log Warn m])"
  unfolding manifest_events_def
  using read_manifest_cases[of "loadManifest E (compose_path E)"]
  by (metis prod.collapse)

lemma manifest_events_quiet:
  "removals (manifest_events E) = []" "port_queries (manifest_events E) = []"
  "launches (manifest_events E) = []"
  using manifest_events_cases[of E] by auto

lemma name_pass_quiet:
  "port_queries (fst (name_pass is)) = []" "launches (fst (name_pass is)) = []"
  by (induction "is") (auto simp: Let_def case_prod_beta split: sum.splits)

lemma name_pass_rendered:
  "map (\<lambda>i. to_string (containerName i)) is = map Inr names \<Longrightarrow>
     snd (name_pass is) = None \<and> removals (fst (name_pass is)) = names"
proof (induction "is" arbitrary: names)
  case Nil
  then show ?case by simp
next
  case (Cons i "is")
  then obtain n ns where n: "names = n # ns" "to_string (containerName i) = Inr n"
    "map (\<lambda>i. to_string (containerName i)) is = map Inr ns"
    by (cases names) auto
  then show ?case using Cons.IH[of ns] by (simp add: Let_def case_prod_beta)
qed

lemma name_pass_stops:
  "map (\<lambda>i. to_string (containerName i)) pre = map Inr names \<Longrightarrow>
   to_string (containerName i) = Inl e \<Longrightarrow>
     snd (name_pass (pre @ i # post)) = Some e \<and> removals (fst (name_pass (pre @ i # post))) = names"
proof (induction pre arbitrary: names)
  case Nil
  then show ?case by simp
next
  case (Cons j pre)
  then obtain n ns where n: "names = n # ns" "to_string (containerName j) = Inr n"
    "map (\<lambda>i. to_string (containerName i)) pre = map Inr ns"
    by (cases names) auto
  then show ?case using Cons.IH[of ns] Cons.prems(2) by (simp add: Let_def case_prod_beta)
qed

lemma svc_infos_services: "svc_infos d doc ns = Inr infos \<Longrightarrow> map service infos = ns"
  by (induction ns arbitrary: infos) (auto simp: svc_info_def split: sum.splits)

lemma svc_infos_each:
  "svc_infos d doc ns = Inr infos \<Longrightarrow> i \<in> set infos \<Longrightarrow> svc_info d doc (service i) = Inr i"
proof (induction ns arbitrary: infos)
  case Nil
  then show ?case by simp
next
  case (Cons s ns)
  then obtain j js where j: "svc_info d doc s = Inr j" "svc_infos d doc ns = Inr js" "infos = j # js"
    by (auto split: sum.splits)
  have "service j = s" using j(1) by (auto simp: svc_info_def split: sum.splits)
  then show ?case using Cons.IH[OF j(2)] Cons.prems(2) j by auto
qed

lemma cleanup_infos_alt:
  "cleanup_infos E = svc_infos (pathBasename E (cwd_of E)) (compose_doc E) (service_names E)"
  by (simp add: cleanup_infos_def compose_doc_def service_names_def case_prod_beta)

lemma remove_conflicting_quiet:
  "port_queries (remove_conflicting p cs) = []" "launches (remove_conflicting p cs) = []"
  by (induction cs) auto

lemma removals_remove_conflicting: "removals (remove_conflicting p cs) = cs"
  by (induction cs) auto

lemma check_ports_quiet:
  "port_queries (fst (check_ports E n ps)) = []" "launches (fst (check_ports E n ps)) = []"
  by (induction ps arbitrary: n)
     (auto simp: Let_def case_prod_beta port_queries_append launches_append remove_conflicting_quiet)

lemma check_ports_count: "snd (check_ports E n ps) = n + length ps"
  by (induction ps arbitrary: n) (auto simp: Let_def case_prod_beta)

lemma removals_check_ports:
  "removals (fst (check_ports E n ps))
     = concat (map (\<lambda>(k, port). conflicting_containers port (psOutput E k)) (enumerate n ps))"
  by (induction ps arbitrary: n)
     (auto simp: Let_def case_prod_beta removals_append removals_remove_conflicting)

lemma port_pass_quiet:
  "port_queries (fst (port_pass E n is)) = []" "launches (fst (port_pass E n is)) = []"
  by (induction "is" arbitrary: n)
     (auto simp: Let_def case_prod_beta port_queries_append launches_append check_ports_quiet)

lemma removals_port_pass:
  "removals (fst (port_pass E n is))
     = concat (map (\<lambda>(k, port). conflicting_containers port (psOutput E k))
                   (enumerate n (concat (map expectedHostPorts is))))"
proof (induction "is" arbitrary: n)
  case Nil
  then show ?case by simp
next
  case (Cons i "is")
  let ?ps = "expectedHostPorts i"
  have "fst (port_pass E n (i # is))
          = fst (check_ports E n ?ps) @ fst (port_pass E (n + length ?ps) is)"
    using check_ports_count[of E n ?ps] by (simp add: Let_def case_prod_beta)
  then have "removals (fst (port_pass E n (i # is)))
          = removals (fst (check_ports E n ?ps)) @ removals (fst (port_pass E (n + length ?ps) is))"
    by (simp add: removals_append)
  then show ?case
    by (simp add: Cons removals_check_ports enumerate_append_eq)
qed

lemma discover_events: "snd (discover E ns pm) = map PortQuery ns"
  by (induction ns arbitrary: pm) (auto simp: Let_def case_prod_beta)

lemma map_PortQuery_quiet:
  "removals (map PortQuery ns) = []" "launches (map PortQuery ns) = []"
  "port_queries (map PortQuery ns) = ns"
  by (induction ns) auto

lemma handler_cases:
  "handler E =
     (if \<not> existsSync E (compose_path E)
      then ([Log Info (''Compose file: '' @ compose_path E)],
            Inl (Error (''Compose file not found: '' @ compose_path E)))
      else (case cleanup_infos E of
              Inl e \<Rightarrow> (Log Info (''Compose file: '' @ compose_path E) # manifest_events E, Inl e)
            | Inr infos \<Rightarrow>
                (case snd (name_pass infos) of
                   Some e \<Rightarrow>
                     (Log Info (''Compose file: '' @ compose_path E) # manifest_events E
                        @ LogCleanupInfo infos # fst (name_pass infos), Inl e)
                 | None \<Rightarrow>
                     (Log Info (''Compose file: '' @ compose_path E) # manifest_events E
                        @ LogCleanupInfo infos # fst (name_pass infos) @ fst (port_pass E 0 infos)
                        @ fst (launch E (compose_path E) (cwd_of E) (service_names E)),
                      snd (launch E (compose_path E) (cwd_of E) (service_names E))))))"
  by (auto simp: handler_def cleanup_infos_def manifest_events_def service_names_def Let_def
           split: prod.splits sum.splits option.splits)

section \<open>Aborting, launching and removing\<close>

lemma starts_with_refl: "starts_with s s"
  using starts_with_append[of s "[]"] by simp

lemma js_includes_suffix: "js_includes (a @ b) b"
proof (induction a)
  case Nil
  show ?case by (cases b) (simp_all add: starts_with_refl)
next
  case (Cons x a)
  then show ?case by simp
qed

lemma report_events:
  "removals (fst (report E ns)) = []" "launches (fst (report E ns)) = []"
  "port_queries (fst (report E ns)) = ns"
  using discover_events[of E ns "[]"]
  by (simp_all add: report_def Let_def case_prod_beta removals_append launches_append
        port_queries_append map_PortQuery_quiet)

lemma launch_events:
  "removals (fst (launch E p d ns)) = []" "launches (fst (launch E p d ns)) = [(p, d)]"
  by (simp_all add: launch_def Let_def case_prod_beta report_events removals_append launches_append)

lemma launch_failed:
  "upExitCode E \<noteq> Some 0 \<Longrightarrow>
     launch E p d ns = ([Log Info ''Starting Docker Compose...'', ComposeUp p d,
                         Log Err (launch_failure (upExitCode E))],
                        Inl (Error (launch_failure (upExitCode E))))"
  by (simp add: launch_def)

text \<open>
  C3. The file exists and \<^verbatim>\<open>docker compose up\<close> would succeed, but the manifest has a
  service with an empty body. Step 2 reads \<^verbatim>\<open>def.container_name\<close> of \<^verbatim>\<open>null\<close>, and the
  handler ends with that \<open>TypeError\<close>: neither of the two fatal conditions, no warning,
  and nothing started.
\<close>

theorem null_service_aborts:
  "existsSync null_service_env (compose_path null_service_env)
   \<and> upExitCode null_service_env = Some 0
   \<and> handler null_service_env =
       ([Log Info ''Compose file: /ws/proj/docker-compose.yml'', Log Info ''Detected services: web''],
        Inl (TypeError ''Cannot read properties of null (reading container_name)''))"
  by code_simp

text \<open>
  C4. Whenever \<^verbatim>\<open>docker compose up\<close> has been run and exits with a code other than 0, the
  handler ends with an error whose message contains that code, and the trace has no port
  query.
\<close>

theorem launch_failure_is_fatal:
  assumes "launches (fst (handler E)) \<noteq> []" and "upExitCode E = Some c" and "c \<noteq> 0"
  shows "snd (handler E) = Inl (Error (''docker compose up exited with code '' @ show_int c))
    \<and> js_includes (''docker compose up exited with code '' @ show_int c) (show_int c)
    \<and> port_queries (fst (handler E)) = []"
proof -
  have ex: "existsSync E (compose_path E)"
    using assms(1) by (auto simp: handler_cases split: if_splits)
  obtain infos where ci: "cleanup_infos E = Inr infos"
    using assms(1) ex by (cases "cleanup_infos E") (auto simp: handler_cases manifest_events_quiet)
  have np: "snd (name_pass infos) = None"
    using assms(1) ex ci
    by (cases "snd (name_pass infos)")
       (auto simp: handler_cases launches_append manifest_events_quiet name_pass_quiet)
  have ne: "upExitCode E \<noteq> Some 0" using assms(2,3) by simp
  have lf: "launch_failure (upExitCode E) = ''docker compose up exited with code '' @ show_int c"
    using assms(2) by (simp add: launch_failure_def)
  have "snd (handler E) = Inl (Error (''docker compose up exited with code '' @ show_int c))"
    using ex ci np by (simp add: handler_cases launch_failed[OF ne] lf)
  moreover have "port_queries (fst (handler E)) = []"
    using ex ci np
    by (simp add: handler_cases launch_failed[OF ne] port_queries_append manifest_events_quiet
          name_pass_quiet port_pass_quiet)
  ultimately show ?thesis using js_includes_suffix by blast
qed

text \<open>Exit code 1 in the example.\<close>

theorem launch_failure_is_fatal_witness:
  "launches (fst (handler failing_up_env)) \<noteq> [] \<and> upExitCode failing_up_env = Some 1
   \<and> snd (handler failing_up_env) = Inl (Error ''docker compose up exited with code 1'')
   \<and> js_includes ''docker compose up exited with code 1'' ''1''
   \<and> port_queries (fst (handler failing_up_env)) = []"
proof -
  have h1: "launches (fst (handler failing_up_env)) \<noteq> []" by code_simp
  have h2: "upExitCode failing_up_env = Some 1" by code_simp
  have s: "show_int 1 = ''1''" by code_simp
  show ?thesis
    using launch_failure_is_fatal[OF h1 h2] h1 h2 by (simp add: s)
qed

text \<open>
  Container \<^verbatim>\<open>x\<close> holds both ports that service \<^verbatim>\<open>web\<close> asks for and is still listed
  at the second listing: it is removed once for each port. The handler keeps no record of
  what it has removed.
\<close>

theorem repeated_removal_of_one_container:
  "removals (fst (handler repeated_conflict_env)) = [''proj_web_1'', ''mydb'', ''x'', ''x'', ''y'']"
  by code_simp

text \<open>
  A container name that cannot be converted to a string ends the name pass, and the
  invocation, with the exception of the conversion: here after the removal for service
  \<^verbatim>\<open>a\<close>, before any for \<^verbatim>\<open>b\<close> and \<^verbatim>\<open>c\<close>.
\<close>

lemma unconvertible_name_aborts:
  "handler bad_name_env =
     ([Log Info ''Compose file: /ws/proj/docker-compose.yml'',
       Log Info ''Detected services: a, b, c'',
       LogCleanupInfo
         [\<lparr> service = ''a'', containerName = JStr ''x'', expectedHostPorts = [] \<rparr>,
          \<lparr> service = ''b'', containerName = JObj [(''toString'', JNum True ''1'')],
            expectedHostPorts = [] \<rparr>,
          \<lparr> service = ''c'', containerName = JStr ''z'', expectedHostPorts = [] \<rparr>],
       Log Info ''Removing container by name: x'', Remove ''x''],
      Inl (TypeError ''Cannot convert object to primitive value''))"
  by code_simp

text \<open>
  C5, amended. Take an invocation that finds the file, builds the cleanup records and can
  convert every resolved container name to a string. There is one cleanup record for each
  service of step 1, in order, with the container name the manifest gives it
  (\<^verbatim>\<open>container_name\<close> when that is set, the name derived from the directory otherwise)
  and the host ports of its \<^verbatim>\<open>ports\<close>. The removal attempts are, in order: one for each
  record, on its container name; then, for each requested host port in turn, one for every
  container that the listing made for that port reports as holding it. A container
  reported for several requested ports is attempted once for each of them.
\<close>

theorem removal_attempts:
  assumes "existsSync E (compose_path E)" and "cleanup_infos E = Inr infos"
    and "map (\<lambda>i. to_string (containerName i)) infos = map Inr names"
  shows "map service infos = service_names E
    \<and> (\<forall>i\<in>set infos. \<exists>def cn.
          service_def E (service i) = Inr def \<and> get_prop def ''container_name'' = Inr cn
          \<and> containerName i
              = (if truthy cn then cn
                 else JStr (pathBasename E (cwd_of E) @ ''_'' @ service i @ ''_1''))
          \<and> expected_host_ports def = Inr (expectedHostPorts i))
    \<and> removals (fst (handler E))
        = names
          @ concat (map (\<lambda>(k, port). conflicting_containers port (psOutput E k))
                        (enumerate 0 (concat (map expectedHostPorts infos))))"
proof (intro conjI ballI)
  have si: "svc_infos (pathBasename E (cwd_of E)) (compose_doc E) (service_names E) = Inr infos"
    using assms(2) by (simp add: cleanup_infos_alt)
  show "map service infos = service_names E"
    using si by (rule svc_infos_services)
  show "removals (fst (handler E))
        = names
          @ concat (map (\<lambda>(k, port). conflicting_containers port (psOutput E k))
                        (enumerate 0 (concat (map expectedHostPorts infos))))"
    using assms(1,2) name_pass_rendered[OF assms(3)]
    by (simp add: handler_cases removals_append manifest_events_quiet removals_port_pass
          launch_events)
  fix i assume "i \<in> set infos"
  then have "svc_info (pathBasename E (cwd_of E)) (compose_doc E) (service i) = Inr i"
    using si by (intro svc_infos_each)
  then obtain sv def cn hps where g: "get_prop (compose_doc E) ''services'' = Inr sv"
    "get_prop sv (service i) = Inr def" "get_prop def ''container_name'' = Inr cn"
    "expected_host_ports def = Inr hps"
    "i = \<lparr> service = service i,
           containerName = (if truthy cn then cn
                            else JStr (pathBasename E (cwd_of E) @ ''_'' @ service i @ ''_1'')),
           expectedHostPorts = hps \<rparr>"
    by (auto simp: svc_info_def split: sum.splits)
  have cn: "containerName i = (if truthy cn then cn
                            else JStr (pathBasename E (cwd_of E) @ ''_'' @ service i @ ''_1''))"
    by (subst g(5)) simp
  have hp: "expectedHostPorts i = hps" by (subst g(5)) simp
  have sd: "service_def E (service i) = Inr def" using g(1,2) by (simp add: service_def_def)
  show "\<exists>def cn.
          service_def E (service i) = Inr def \<and> get_prop def ''container_name'' = Inr cn
          \<and> containerName i
              = (if truthy cn then cn
                 else JStr (pathBasename E (cwd_of E) @ ''_'' @ service i @ ''_1''))
          \<and> expected_host_ports def = Inr (expectedHostPorts i)"
    using sd g(3,4) cn hp by blast
qed

text \<open>
  Two services, the second with a \<^verbatim>\<open>container_name\<close>; three requested ports, each with
  its own listing.
\<close>

theorem removal_attempts_witness:
  "existsSync repeated_conflict_env (compose_path repeated_conflict_env)
   \<and> cleanup_infos repeated_conflict_env
       = Inr [\<lparr> service = ''web'', containerName = JStr ''proj_web_1'',
                 expectedHostPorts = [''80'', ''443''] \<rparr>,
              \<lparr> service = ''db'', containerName = JStr ''mydb'',
                 expectedHostPorts = [''5432''] \<rparr>]
   \<and> service_names repeated_conflict_env = [''web'', ''db'']
   \<and> removals (fst (handler repeated_conflict_env))
       = [''proj_web_1'', ''mydb'']
           @ conflicting_containers ''80'' (psOutput repeated_conflict_env 0)
           @ conflicting_containers ''443'' (psOutput repeated_conflict_env 1)
           @ conflicting_containers ''5432'' (psOutput repeated_conflict_env 2)
   \<and> conflicting_containers ''80'' (psOutput repeated_conflict_env 0) = [''x'']
   \<and> conflicting_containers ''443'' (psOutput repeated_conflict_env 1) = [''x'']
   \<and> conflicting_containers ''5432'' (psOutput repeated_conflict_env 2) = [''y'']"
proof -
  have c: "conflicting_containers ''80'' (psOutput repeated_conflict_env 0) = [''x'']"
    "conflicting_containers ''443'' (psOutput repeated_conflict_env 1) = [''x'']"
    "conflicting_containers ''5432'' (psOutput repeated_conflict_env 2) = [''y'']"
    by code_simp+
  let ?infos = "[\<lparr> service = ''web'', containerName = JStr ''proj_web_1'',
                 expectedHostPorts = [''80'', ''443''] \<rparr>,
              \<lparr> service = ''db'', containerName = JStr ''mydb'',
                 expectedHostPorts = [''5432''] \<rparr>]"
  have h1: "existsSync repeated_conflict_env (compose_path repeated_conflict_env)" by code_simp
  have h2: "cleanup_infos repeated_conflict_env = Inr ?infos" by code_simp
  have h3: "map (\<lambda>i. to_string (containerName i)) ?infos = map Inr [''proj_web_1'', ''mydb'']"
    by simp
  have t: "map service ?infos = service_names repeated_conflict_env
    \<and> removals (fst (handler repeated_conflict_env))
        = [''proj_web_1'', ''mydb'']
          @ concat (map (\<lambda>(k, port). conflicting_containers port (psOutput repeated_conflict_env k))
                        (enumerate 0 (concat (map expectedHostPorts ?infos))))"
    using removal_attempts[OF h1 h2 h3] by blast
  show ?thesis
    using t h1 h2 c by (simp add: enumerate_simps eval_nat_numeral)
qed

section \<open>The ports map and the web URL\<close>

lemma obj_set_proto: "obj_set ''__proto__'' v pm = pm"
  by (cases pm) auto

lemma obj_set_fresh:
  "k \<noteq> ''__proto__'' \<Longrightarrow> k \<notin> fst ` set pm \<Longrightarrow> obj_set k v pm = pm @ [(k, v)]"
  by (induction pm) auto

lemma discover_distinct:
  "distinct ns \<Longrightarrow> set ns \<inter> fst ` set pm = {} \<Longrightarrow>
     fst (discover E ns pm)
       = pm @ map (\<lambda>s. (s, parse_port_output (portOutput E s)))
                  (filter (\<lambda>s. s \<noteq> ''__proto__'') ns)"
proof (induction ns arbitrary: pm)
  case Nil
  then show ?case by simp
next
  case (Cons s ns)
  let ?pm = "obj_set s (parse_port_output (portOutput E s)) pm"
  show ?case
  proof (cases "s = ''__proto__''")
    case True
    have "set ns \<inter> fst ` set pm = {}" using Cons.prems(2) by auto
    then show ?thesis
      using Cons.IH[of pm] Cons.prems(1) True by (simp add: Let_def case_prod_beta obj_set_proto)
  next
    case False
    have f: "?pm = pm @ [(s, parse_port_output (portOutput E s))]"
      using Cons.prems(2) False by (intro obj_set_fresh) auto
    have "set ns \<inter> fst ` set ?pm = {}"
      using Cons.prems unfolding f by auto
    then have "fst (discover E ns ?pm)
        = ?pm @ map (\<lambda>s. (s, parse_port_output (portOutput E s)))
                    (filter (\<lambda>s. s \<noteq> ''__proto__'') ns)"
      using Cons.IH[of ?pm] Cons.prems(1) by simp
    then show ?thesis using False by (simp add: Let_def case_prod_beta f)
  qed
qed

lemma js_key_order_filter:
  assumes "js_key_order ns = ns"
  shows "js_key_order (filter Q ns) = filter Q ns"
proof -
  let ?A = "filter is_array_index ns"
  let ?B = "filter (\<lambda>k. \<not> is_array_index k) ns"
  have "filter is_array_index (js_key_order ns) = sort_key index_value ?A"
    by (simp add: js_key_order_def filter_empty_conv)
  then have a: "sort_key index_value ?A = ?A" using assms by simp
  have "sorted (map index_value (sort_key index_value ?A))" by simp
  then have "sorted (map index_value ?A)" using a by simp
  then have "sorted (map index_value (filter Q ?A))" by (rule sorted_filter)
  then have q: "sort_key index_value (filter Q ?A) = filter Q ?A"
    by (rule sort_key_id_if_sorted)
  have c1: "filter is_array_index (filter Q ns) = filter Q ?A"
    by (simp add: conj_commute)
  have c2: "filter (\<lambda>k. \<not> is_array_index k) (filter Q ns) = filter Q ?B"
    by (simp add: conj_commute)
  have "js_key_order (filter Q ns) = filter Q ?A @ filter Q ?B"
    by (simp only: js_key_order_def c1 c2 q)
  also have "\<dots> = filter Q (?A @ ?B)" by simp
  also have "?A @ ?B = js_key_order ns" by (simp only: js_key_order_def a)
  finally show ?thesis using assms by simp
qed

lemma map_of_keyed: "k \<in> set ns \<Longrightarrow> map_of (map (\<lambda>s. (s, f s)) ns) k = Some (f k)"
  by (induction ns) auto

lemma object_entries_keyed:
  assumes "js_key_order ns = ns"
  shows "object_entries (map (\<lambda>s. (s, f s)) ns) = map (\<lambda>s. (s, f s)) ns"
proof -
  have k: "map fst (map (\<lambda>s. (s, f s)) ns) = ns" by (simp add: o_def)
  have "concat (map (\<lambda>k. case map_of (map (\<lambda>s. (s, f s)) ns) k of Some v \<Rightarrow> [(k, v)] | None \<Rightarrow> []) ns)
        = concat (map (\<lambda>k. [(k, f k)]) ns)"
    by (rule arg_cong[where f=concat], rule map_cong) (simp_all add: map_of_keyed)
  also have "\<dots> = map (\<lambda>s. (s, f s)) ns" by (induction ns) auto
  finally show ?thesis unfolding object_entries_def k assms .
qed

lemma report_result:
  assumes "distinct ns" and "js_key_order ns = ns"
  shows "snd (report E ns) =
           \<lparr> webUrl = pick_web_url (map (\<lambda>s. (s, parse_port_output (portOutput E s)))
                                         (filter (\<lambda>s. s \<noteq> ''__proto__'') ns)),
             ports = map (\<lambda>s. (s, parse_port_output (portOutput E s)))
                         (filter (\<lambda>s. s \<noteq> ''__proto__'') ns) \<rparr>"
proof -
  have "fst (discover E ns [])
          = map (\<lambda>s. (s, parse_port_output (portOutput E s))) (filter (\<lambda>s. s \<noteq> ''__proto__'') ns)"
    using discover_distinct[OF assms(1), of "[]" E] by simp
  then show ?thesis
    by (simp add: report_def Let_def case_prod_beta
          object_entries_keyed[OF js_key_order_filter[OF assms(2)]])
qed

lemma handler_success:
  assumes "snd (handler E) = Inr r"
  shows "r = snd (report E (service_names E))"
proof -
  have ex: "existsSync E (compose_path E)"
    using assms by (auto simp: handler_cases split: if_splits)
  obtain infos where ci: "cleanup_infos E = Inr infos"
    using assms ex by (cases "cleanup_infos E") (auto simp: handler_cases)
  have np: "snd (name_pass infos) = None"
    using assms ex ci by (cases "snd (name_pass infos)") (auto simp: handler_cases)
  have "snd (launch E (compose_path E) (cwd_of E) (service_names E)) = Inr r"
    using assms ex ci np by (simp add: handler_cases)
  then show ?thesis
    by (auto simp: launch_def Let_def case_prod_beta split: if_splits)
qed

text \<open>
  What the handler returns, for a service list without repetition: the ports map has an
  entry for each service but one named \<^verbatim>\<open>__proto__\<close>, in the order of the service list,
  and the URL is chosen among these entries.
\<close>

lemma returned_result:
  assumes "snd (handler E) = Inr r" and "distinct (service_names E)"
  shows "ports r = map (\<lambda>s. (s, parse_port_output (portOutput E s)))
                       (filter (\<lambda>s. s \<noteq> ''__proto__'') (service_names E))"
    and "webUrl r = pick_web_url (ports r)"
  using handler_success[OF assms(1)] report_result[OF assms(2) service_names_ordered]
  by simp_all

lemma pick_web_url_none: "\<forall>(s, ms)\<in>set pm. ms = [] \<Longrightarrow> pick_web_url pm = []"
  by (induction pm rule: pick_web_url.induct) auto

lemma pick_web_url_first:
  "\<forall>(t, ms)\<in>set pre. ms = [] \<Longrightarrow>
     pick_web_url (pre @ (s, b # bs) # post) = ''http://localhost:'' @ hostPort b"
  by (induction pre rule: pick_web_url.induct) auto

text \<open>
  C6. Services \<^verbatim>\<open>__proto__\<close> and \<^verbatim>\<open>web\<close>, in this order. The query of the first
  service finds the binding of host port 32768, that of the second finds nothing, so the
  first service with a binding is \<^verbatim>\<open>__proto__\<close>. Its bindings never become an entry of
  the ports map, the loop over the entries sees \<^verbatim>\<open>web\<close> only, and the URL is empty.
\<close>

theorem first_bound_service_gives_no_url:
  "service_names proto_env = [''__proto__'', ''web'']
   \<and> parse_port_output (portOutput proto_env ''__proto__'')
       = [\<lparr> hostPort = ''32768'', containerPort = ''80'' \<rparr>]
   \<and> parse_port_output (portOutput proto_env ''web'') = []
   \<and> snd (handler proto_env) = Inr \<lparr> webUrl = [], ports = [(''web'', [])] \<rparr>"
  by code_simp

text \<open>
  C9. In the same invocation both services are queried, and the returned ports map has an
  entry for \<^verbatim>\<open>web\<close> only: the assignment \<^verbatim>\<open>ports['__proto__'] = mappings\<close> creates no
  property, and service \<^verbatim>\<open>__proto__\<close> is omitted from the map.
\<close>

theorem proto_service_omitted_from_ports:
  "service_names proto_env = [''__proto__'', ''web'']
   \<and> port_queries (fst (handler proto_env)) = [''__proto__'', ''web'']
   \<and> snd (handler proto_env) = Inr \<lparr> webUrl = [], ports = [(''web'', [])] \<rparr>"
  by code_simp

section \<open>Manifests without services\<close>

text \<open>
  A manifest that is a bare scalar: reading \<^verbatim>\<open>.services\<close> of a string gives
  \<^verbatim>\<open>undefined\<close> and throws nothing, so no warning is logged.
\<close>

theorem scalar_root_no_warning:
  "read_manifest (Inr (JStr ''hello'')) = ([], JStr ''hello'', [])"
  by code_simp

lemma array_index_services: "array_index ''services'' = None"
  by (simp add: array_index_def is_digit_def)

text \<open>
  C10, amended. Step 1 always ends with a service list, never with an exception. When the
  root of the document is \<^verbatim>\<open>undefined\<close> (an empty document) or \<^verbatim>\<open>null\<close>, reading
  \<^verbatim>\<open>.services\<close> throws inside the \<^verbatim>\<open>try\<close> block, the warning is logged and the list is
  empty; when the root is any other value that is not a mapping (a boolean, a number, a
  string, a sequence), nothing is thrown, nothing is logged and the list is empty; when
  loading itself throws, the warning is logged and the list is empty.
\<close>

theorem read_manifest_non_mapping_root:
  "read_manifest (Inr JUndefined)
     = ([], JUndefined, [Log Warn (''Failed to parse compose file: ''
          @ error_text (TypeError ''Cannot read properties of undefined (reading services)''))])
   \<and> read_manifest (Inr JNull)
     = ([], JNull, [Log Warn (''Failed to parse compose file: ''
          @ error_text (TypeError ''Cannot read properties of null (reading services)''))])
   \<and> read_manifest (Inr (JBool b)) = ([], JBool b, [])
   \<and> read_manifest (Inr (JNum z t)) = ([], JNum z t, [])
   \<and> read_manifest (Inr (JStr s)) = ([], JStr s, [])
   \<and> read_manifest (Inr (JArr xs)) = ([], JArr xs, [])
   \<and> read_manifest (Inl e) = ([], JObj [], [Log Warn (''Failed to parse compose file: '' @ error_text e)])"
  by (simp add: read_manifest_def manifest_try_def array_index_services)

text \<open>A manifest without a \<^verbatim>\<open>services\<close> key is no failure to the handler: it logs no warning.\<close>

theorem missing_services_key_no_warning:
  "warnings (fst (handler no_services_env)) = []"
  by code_simp

lemma launch_no_services:
  "launch E p d [] =
     (Log Info ''Starting Docker Compose...'' # ComposeUp p d #
        (if upExitCode E = Some 0
         then [Log Info ''Docker Compose executed successfully.'', LogExposedPorts [], OutputPorts [],
               OutputWebUrl [], Log Info ''Application available at: '']
         else [Log Err (launch_failure (upExitCode E))]),
      if upExitCode E = Some 0 then Inr \<lparr> webUrl = [], ports = [] \<rparr>
      else Inl (Error (launch_failure (upExitCode E))))"
  by (simp add: launch_def report_def object_entries_def js_key_order_def)

text \<open>
  C8, amended. When the manifest cannot be loaded, the failure is logged as a warning; when
  it is a mapping without a \<^verbatim>\<open>services\<close> key, nothing is logged about it. In both cases
  the service list is empty, the trace has no removal, no listing and no port query, and
  \<^verbatim>\<open>docker compose up\<close> is run on the path of the manifest.
\<close>

theorem empty_service_list_still_launches:
  assumes "existsSync E (compose_path E)"
  shows "(loadManifest E (compose_path E) = Inl e \<longrightarrow>
            service_names E = []
            \<and> fst (handler E) =
                Log Info (''Compose file: '' @ compose_path E)
                # Log Warn (''Failed to parse compose file: '' @ error_text e)
                # LogCleanupInfo []
                # fst (launch E (compose_path E) (cwd_of E) []))
    \<and> (loadManifest E (compose_path E) = Inr (JObj kvs) \<and> map_of kvs ''services'' = None \<longrightarrow>
            service_names E = []
            \<and> fst (handler E) =
                Log Info (''Compose file: '' @ compose_path E)
                # LogCleanupInfo []
                # fst (launch E (compose_path E) (cwd_of E) []))
    \<and> fst (launch E p d []) =
         Log Info ''Starting Docker Compose...'' # ComposeUp p d #
           (if upExitCode E = Some 0
            then [Log Info ''Docker Compose executed successfully.'', LogExposedPorts [], OutputPorts [],
                  OutputWebUrl [], Log Info ''Application available at: '']
            else [Log Err (launch_failure (upExitCode E))])"
proof (intro conjI impI)
  assume l: "loadManifest E (compose_path E) = Inl e"
  then have rm: "read_manifest (loadManifest E (compose_path E))
      = ([], JObj [], [Log Warn (''Failed to parse compose file: '' @ error_text e)])"
    by (simp add: read_manifest_def manifest_try_def)
  show "service_names E = []" by (simp add: service_names_def rm)
  show "fst (handler E) =
                Log Info (''Compose file: '' @ compose_path E)
                # Log Warn (''Failed to parse compose file: '' @ error_text e)
                # LogCleanupInfo []
                # fst (launch E (compose_path E) (cwd_of E) [])"
    using assms by (simp add: handler_def rm Let_def case_prod_beta)
next
  assume "loadManifest E (compose_path E) = Inr (JObj kvs) \<and> map_of kvs ''services'' = None"
  then have rm: "read_manifest (loadManifest E (compose_path E)) = ([], JObj kvs, [])"
    by (simp add: read_manifest_def manifest_try_def)
  show "service_names E = []" by (simp add: service_names_def rm)
  show "fst (handler E) =
                Log Info (''Compose file: '' @ compose_path E)
                # LogCleanupInfo []
                # fst (launch E (compose_path E) (cwd_of E) [])"
    using assms by (simp add: handler_def rm Let_def case_prod_beta)
next
  show "fst (launch E p d []) =
         Log Info ''Starting Docker Compose...'' # ComposeUp p d #
           (if upExitCode E = Some 0
            then [Log Info ''Docker Compose executed successfully.'', LogExposedPorts [], OutputPorts [],
                  OutputWebUrl [], Log Info ''Application available at: '']
            else [Log Err (launch_failure (upExitCode E))])"
    by (simp add: launch_no_services)
qed

text \<open>Both cases in the example.\<close>

theorem empty_service_list_still_launches_witness:
  "existsSync unparsable_env (compose_path unparsable_env)
   \<and> loadManifest unparsable_env (compose_path unparsable_env) = Inl (External ''YAMLException: bad indentation'')
   \<and> fst (handler unparsable_env) =
       [Log Info ''Compose file: /ws/proj/docker-compose.yml'',
        Log Warn ''Failed to parse compose file: YAMLException: bad indentation'',
        LogCleanupInfo [], Log Info ''Starting Docker Compose...'',
        ComposeUp ''/ws/proj/docker-compose.yml'' ''/ws/proj'',
        Log Info ''Docker Compose executed successfully.'', LogExposedPorts [],
        OutputPorts [], OutputWebUrl [], Log Info ''Application available at: '']
   \<and> existsSync no_services_env (compose_path no_services_env)
   \<and> loadManifest no_services_env (compose_path no_services_env) = Inr (JObj [(''version'', JStr ''3'')])
   \<and> map_of [(''version'', JStr ''3'')] ''services'' = None
   \<and> fst (handler no_services_env) =
       [Log Info ''Compose file: /ws/proj/docker-compose.yml'',
        LogCleanupInfo [], Log Info ''Starting Docker Compose...'',
        ComposeUp ''/ws/proj/docker-compose.yml'' ''/ws/proj'',
        Log Info ''Docker Compose executed successfully.'', LogExposedPorts [],
        OutputPorts [], OutputWebUrl [], Log Info ''Application available at: '']"
proof -
  have a1: "existsSync unparsable_env (compose_path unparsable_env)" by code_simp
  have a2: "loadManifest unparsable_env (compose_path unparsable_env) = Inl (External ''YAMLException: bad indentation'')"
    by code_simp
  have b1: "existsSync no_services_env (compose_path no_services_env)" by code_simp
  have b2: "loadManifest no_services_env (compose_path no_services_env) = Inr (JObj [(''version'', JStr ''3'')])"
    by code_simp
  have b3: "map_of [(''version'', JStr ''3'')] ''services'' = None" by simp
  have p: "compose_path unparsable_env = ''/ws/proj/docker-compose.yml''" "cwd_of unparsable_env = ''/ws/proj''"
    "compose_path no_services_env = ''/ws/proj/docker-compose.yml''" "cwd_of no_services_env = ''/ws/proj''"
    "upExitCode unparsable_env = Some 0" "upExitCode no_services_env = Some 0"
    by code_simp+
  have t1: "fst (handler unparsable_env) =
                Log Info (''Compose file: '' @ compose_path unparsable_env)
                # Log Warn (''Failed to parse compose file: '' @ error_text (External ''YAMLException: bad indentation''))
                # LogCleanupInfo []
                # fst (launch unparsable_env (compose_path unparsable_env) (cwd_of unparsable_env) [])"
    using empty_service_list_still_launches[OF a1, where e = "External ''YAMLException: bad indentation''"] a2
    by blast
  have t2: "fst (handler no_services_env) =
                Log Info (''Compose file: '' @ compose_path no_services_env)
                # LogCleanupInfo []
                # fst (launch no_services_env (compose_path no_services_env) (cwd_of no_services_env) [])"
    using empty_service_list_still_launches[OF b1, where kvs = "[(''version'', JStr ''3'')]"] b2 b3
    by blast
  show ?thesis
    using a1 a2 b1 b2 b3 unfolding t1 t2 launch_no_services p by simp
qed

end
